theory Spec2Isabelle
  imports Main "HOL-Library.Word"
begin

unbundle bit_operations_syntax

section \<open>Data model\<close>

text \<open>
  Go strings are byte sequences and \<open>len\<close> counts bytes, so a Go string is a
  \<open>string\<close> (a list of 8-bit characters) and \<open>len\<close> is \<open>length\<close>.
  Go \<open>error\<close> values are opaque to \<open>Parse.go\<close>, apart from the one it builds
  itself on line 182 from the status code.
\<close>

type_synonym byte = "8 word"
type_synonym uint32 = "32 word"
type_synonym uint64 = "64 word"

datatype error = External string | UnexpectedStatus int

text \<open>The fields of \<open>gofeed.Item\<close> and \<open>gofeed.Feed\<close> that \<open>Parse.go\<close> reads.\<close>

record Item =
  item_Link :: string
  item_Title :: string
  item_Description :: string
  item_Published :: string
  item_GUID :: string

record Feed =
  feed_Title :: string
  feed_Items :: "Item list"

text \<open>The fields of \<open>goose.Article\<close> that \<open>Parse.go\<close> reads.\<close>

record Article =
  CleanedText :: string
  TopImage :: string

text \<open>\<open>type RrssFeed struct\<close>, lines 32 to 43; \<open>Created\<close> is a clock reading.\<close>

record RrssFeed =
  Id :: string
  FeedUrl :: string
  FeedTitle :: string
  ItemImage :: string
  ItemTitle :: string
  ItemBody :: string
  ItemUrl :: string
  ItemExtendedBody :: string
  Published :: string
  Created :: nat

text \<open>The zero value of the struct: what a fresh slot of a backing array holds.\<close>

definition zero_RrssFeed :: RrssFeed where
  "zero_RrssFeed =
     \<lparr>Id = [], FeedUrl = [], FeedTitle = [], ItemImage = [], ItemTitle = [], ItemBody = [],
      ItemUrl = [], ItemExtendedBody = [], Published = [], Created = 0\<rparr>"

text \<open>
  What \<open>GetExtendedArticle\<close> sees of an HTTP response: the status code and the outcome
  of \<open>goquery.NewDocumentFromResponse\<close>, which is an error or a document. Of the document
  only \<open>doc.Find("article")\<close> is used: the list holds, in document order, the string that
  \<open>s.Html()\<close> returns for each \<open><article></article>\<close> element (its error is discarded on
  line 171).
\<close>

record Response =
  StatusCode :: int
  Document :: "error + string list"

text \<open>
  The collaborators outside the repository, as one record of functions: the feed parser
  (\<open>gofeed\<close>), the article extractor (\<open>goose\<close>), the sanitizer policy \<open>p\<close>
  (\<open>bluemonday.UGCPolicy()\<close>), \<open>uuid.NewUUID\<close> followed by \<open>String\<close>, the wall clock,
  and \<open>http.Get\<close>. Calls made by the goroutine of item \<open>i\<close> take \<open>i\<close> as an argument, so
  that two calls with the same URL may answer differently. \<open>ExtractFromURL\<close> returns a
  pointer and an error: the pointer may be \<open>nil\<close> (\<open>None\<close>). The last field is the
  run-time's choice of a capacity when \<open>append\<close> has to grow a slice, from the old
  capacity and the length needed.
\<close>

record world =
  ParseURL :: "string \<Rightarrow> error + Feed"
  ExtractFromURL :: "nat \<Rightarrow> string \<Rightarrow> Article option \<times> error option"
  Sanitize :: "string \<Rightarrow> string"
  NewUUID :: "nat \<Rightarrow> error + string"
  Now :: "nat \<Rightarrow> nat"
  Get :: "string \<Rightarrow> error + Response"
  GrowCap :: "nat \<Rightarrow> nat \<Rightarrow> nat"

section \<open>SHA-1 and hexadecimal encoding (crypto/sha1, encoding/hex)\<close>

definition byte_of :: "char \<Rightarrow> byte" where
  "byte_of c = word_of_nat (of_char c)"

definition RotateLeft32 :: "uint32 \<Rightarrow> nat \<Rightarrow> uint32" where
  "RotateLeft32 x k = push_bit k x OR drop_bit (32 - k) x"

definition BePutUint32 :: "uint32 \<Rightarrow> byte list" where
  "BePutUint32 v =
     [ucast (drop_bit 24 v), ucast (drop_bit 16 v), ucast (drop_bit 8 v), ucast v]"

definition BePutUint64 :: "uint64 \<Rightarrow> byte list" where
  "BePutUint64 v =
     [ucast (drop_bit 56 v), ucast (drop_bit 48 v), ucast (drop_bit 40 v),
      ucast (drop_bit 32 v), ucast (drop_bit 24 v), ucast (drop_bit 16 v),
      ucast (drop_bit 8 v), ucast v]"

definition BeUint32 :: "byte list \<Rightarrow> nat \<Rightarrow> uint32" where
  "BeUint32 p j =
     push_bit 24 (ucast (p ! j)) OR push_bit 16 (ucast (p ! (j + 1)))
       OR push_bit 8 (ucast (p ! (j + 2))) OR ucast (p ! (j + 3))"

type_synonym digest = "uint32 \<times> uint32 \<times> uint32 \<times> uint32 \<times> uint32"

definition round_f :: "nat \<Rightarrow> uint32 \<Rightarrow> uint32 \<Rightarrow> uint32 \<Rightarrow> uint32" where
  "round_f i b c d =
     (if i < 20 then (b AND c) OR (NOT b AND d)
      else if i < 40 then b XOR c XOR d
      else if i < 60 then ((b OR c) AND d) OR (b AND c)
      else b XOR c XOR d)"

definition round_K :: "nat \<Rightarrow> uint32" where
  "round_K i =
     (if i < 20 then 0x5A827999 else if i < 40 then 0x6ED9EBA1
      else if i < 60 then 0x8F1BBCDC else 0xCA62C1D6)"

text \<open>
  The eighty rounds of one block, with the sixteen-word circular schedule of the
  library's generic block function: \<open>block_rounds n i w s\<close> runs \<open>n\<close> rounds from
  round \<open>i\<close>.
\<close>

fun block_rounds :: "nat \<Rightarrow> nat \<Rightarrow> uint32 list \<Rightarrow> digest \<Rightarrow> digest" where
  "block_rounds 0 i w s = s"
| "block_rounds (Suc n) i w (a, b, c, d, e) =
     (let w' = (if i < 16 then w
                else w[i mod 16 :=
                       RotateLeft32 (w ! ((i - 3) mod 16) XOR w ! ((i - 8) mod 16)
                         XOR w ! ((i - 14) mod 16) XOR w ! (i mod 16)) 1]);
          t = RotateLeft32 a 5 + round_f i b c d + e + w' ! (i mod 16) + round_K i
      in block_rounds n (Suc i) w' (t, a, RotateLeft32 b 30, c, d))"

definition block :: "digest \<Rightarrow> byte list \<Rightarrow> digest" where
  "block h p =
     (case h of (h0, h1, h2, h3, h4) \<Rightarrow>
        (case block_rounds 80 0 (map (\<lambda>i. BeUint32 p (i * 4)) [0..<16]) h of
           (a, b, c, d, e) \<Rightarrow> (h0 + a, h1 + b, h2 + c, h3 + d, h4 + e)))"

fun blocks :: "nat \<Rightarrow> digest \<Rightarrow> byte list \<Rightarrow> digest" where
  "blocks 0 h p = h"
| "blocks (Suc n) h p = blocks n (block h (take 64 p)) (drop 64 p)"

definition blockGeneric :: "digest \<Rightarrow> byte list \<Rightarrow> digest" where
  "blockGeneric h p = blocks (length p div 64) h p"

text \<open>The padding: a \<open>0x80\<close> byte, zeros up to 56 modulo 64, the bit length on 64 bits.\<close>

definition padding :: "nat \<Rightarrow> byte list" where
  "padding len =
     (let t = (if len mod 64 < 56 then 56 - len mod 64 else 64 + 56 - len mod 64)
      in 0x80 # replicate (t - 1) 0 @ BePutUint64 (push_bit 3 (word_of_nat len)))"

definition init_digest :: digest where
  "init_digest = (0x67452301, 0xEFCDAB89, 0x98BADCFE, 0x10325476, 0xC3D2E1F0)"

definition sha1_Sum :: "byte list \<Rightarrow> byte list" where
  "sha1_Sum content =
     (case blockGeneric init_digest (content @ padding (length content)) of
        (h0, h1, h2, h3, h4) \<Rightarrow>
          BePutUint32 h0 @ BePutUint32 h1 @ BePutUint32 h2 @ BePutUint32 h3 @ BePutUint32 h4)"

definition hextable :: string where
  "hextable = ''0123456789abcdef''"

definition EncodeToString :: "byte list \<Rightarrow> string" where
  "EncodeToString src =
     concat (map (\<lambda>v. [hextable ! unat (drop_bit 4 v), hextable ! unat (v AND 0x0f)]) src)"

section \<open>Identity resolution\<close>

text \<open>\<open>hashContent\<close>, lines 117 to 122.\<close>

definition hashContent :: "string \<Rightarrow> string" where
  "hashContent content = EncodeToString (sha1_Sum (map byte_of content))"

text \<open>
  \<open>generateId\<close>, lines 124 to 143. The first argument is what \<open>uuid.NewUUID\<close> would
  answer if it were called; the result \<open>Inl err\<close> stands for the pair \<open>("", err)\<close>.
\<close>

definition generateId :: "error + string \<Rightarrow> Item \<Rightarrow> error + string" where
  "generateId uuid item =
     (if length (item_GUID item) > 0 then Inr (item_GUID item)
      else let ident = hashContent (item_Description item) in
        if length ident > 0 then Inr ident
        else (case uuid of Inl err \<Rightarrow> Inl err | Inr u \<Rightarrow> Inr u))"

section \<open>The goroutine of one item\<close>

text \<open>
  The two ways the process dies inside a goroutine: \<open>log.Fatal\<close> on line 70, which exits
  at once, and the run-time panic of \<open>article.CleanedText\<close> on line 83 when \<open>article\<close>
  is \<open>nil\<close>, which first runs the deferred \<open>wg.Done()\<close> of line 65.
\<close>

datatype crash = FatalExit error | NilPointerDereference

definition extractArticle :: "world \<Rightarrow> nat \<Rightarrow> string \<Rightarrow> Article option \<times> error option" where
  "extractArticle w i url = ExtractFromURL w i url"

text \<open>
  Lines 66 to 106 without the append: everything goroutine \<open>i\<close> does on its own. The
  result is the list of article URLs it fetched and either the crash or the record it
  is about to append. The composite literal on lines 96 to 106 sets no \<open>ItemTitle\<close>,
  which is therefore the zero value.
\<close>

definition item_task :: "world \<Rightarrow> string \<Rightarrow> Feed \<Rightarrow> nat \<Rightarrow> string list \<times> (crash + RrssFeed)" where
  "item_task w url feed i =
     (let item = feed_Items feed ! i in
      case generateId (NewUUID w i) item of
        Inl err \<Rightarrow> ([], Inl (FatalExit err))
      | Inr ident \<Rightarrow>
          let itemUrl = item_Link item;
              mk = (\<lambda>itemExtended itemImage.
                \<lparr>Id = ident, FeedUrl = url, FeedTitle = feed_Title feed,
                 ItemImage = itemImage, ItemTitle = [],
                 ItemBody = Sanitize w (item_Description item),
                 ItemUrl = item_Link item,
                 ItemExtendedBody = Sanitize w itemExtended,
                 Published = item_Published item, Created = Now w i\<rparr>)
          in if length itemUrl > 0 then
               (case extractArticle w i itemUrl of
                  (None, err) \<Rightarrow> ([itemUrl], Inl NilPointerDereference)
                | (Some article, err) \<Rightarrow>
                    ([itemUrl], Inr (mk (CleanedText article) (TopImage article))))
             else ([], Inr (mk [] [])))"

section \<open>The goroutines together\<close>

text \<open>
  \<open>feedItems\<close> is captured by the goroutines, so it lives on the heap and the statement
  \<open>feedItems = append(feedItems, r)\<close> of line 96 is compiled as an append in place, with
  no lock around it:
  \<^item> load the slice header (pointer, length, capacity);
  \<^item> if the length plus one exceeds the capacity, \<open>growslice\<close> allocates a zeroed array
    of the new capacity and copies the old elements into it; then the new capacity and
    pointer are stored into \<open>feedItems\<close>;
  \<^item> the new length is stored into \<open>feedItems\<close>;
  \<^item> the element is stored into the slot of the array.

  The state holds the header of \<open>feedItems\<close>, the backing arrays by address, and the place
  of every goroutine. Each item above is one step: a load or a store of the header, the
  copy of \<open>growslice\<close> and the store of one element happen at once (the interleavings of
  a sequentially consistent memory, which are among the executions Go allows; a header
  read or written in several pieces is outside the model). A step that would leave the
  bounds of an array sets \<open>beyond\<close>: what such a run does depends on the memory layout.
\<close>

type_synonym slice = "nat \<times> nat \<times> nat"

datatype pc =
    Start
  | Built RrssFeed
  | HeaderRead RrssFeed nat nat nat
  | Grown RrssFeed nat nat nat
  | PtrStored RrssFeed nat nat
  | LenStored RrssFeed nat nat
  | Finished
  | Panicking

text \<open>
  \<open>HeaderRead r p l c\<close>: the header \<open>(p, l, c)\<close> has been loaded. \<open>Grown r p l c\<close>: the new
  array is at \<open>p\<close>, with capacity \<open>c\<close>, and holds the \<open>l\<close> old elements. \<open>PtrStored r p l\<close>:
  capacity and pointer are stored. \<open>LenStored r p l\<close>: the length \<open>l + 1\<close> is stored and
  the record \<open>r\<close> is still to be written to slot \<open>l\<close> of the array at \<open>p\<close>. \<open>Panicking\<close>:
  the goroutine has panicked and its deferred \<open>wg.Done()\<close> has run; its next step ends
  the process.
\<close>

record pstate =
  feedItems :: slice
  heap :: "RrssFeed list list"
  tasks :: "pc list"
  fetches :: "(nat \<times> string) list"
  crashed :: "crash option"
  beyond :: bool

text \<open>\<open>make([]RrssFeed, 0)\<close> on line 59: an empty array at address 0.\<close>

definition init_state :: "nat \<Rightarrow> pstate" where
  "init_state sliceLength =
     \<lparr>feedItems = (0, 0, 0), heap = [[]], tasks = replicate sliceLength Start,
      fetches = [], crashed = None, beyond = False\<rparr>"

text \<open>\<open>growslice\<close>: the old elements, then zero values up to the new capacity.\<close>

definition growslice :: "world \<Rightarrow> RrssFeed list \<Rightarrow> nat \<Rightarrow> nat \<Rightarrow> RrssFeed list" where
  "growslice w array l c =
     take l array @ replicate (max (l + 1) (GrowCap w c (l + 1)) - l) zero_RrssFeed"

text \<open>One step of goroutine \<open>i\<close>. Nothing moves once the process has died.\<close>

definition step :: "world \<Rightarrow> string \<Rightarrow> Feed \<Rightarrow> nat \<Rightarrow> pstate \<Rightarrow> pstate" where
  "step w url feed i st =
     (if crashed st = None \<and> \<not> beyond st \<and> i < length (tasks st) then
        (case tasks st ! i of
           Start \<Rightarrow>
             (case item_task w url feed i of
                (urls, Inl (FatalExit err)) \<Rightarrow>
                  st\<lparr>fetches := fetches st @ map (Pair i) urls,
                     crashed := Some (FatalExit err)\<rparr>
              | (urls, Inl NilPointerDereference) \<Rightarrow>
                  st\<lparr>fetches := fetches st @ map (Pair i) urls,
                     tasks := (tasks st)[i := Panicking]\<rparr>
              | (urls, Inr r) \<Rightarrow>
                  st\<lparr>fetches := fetches st @ map (Pair i) urls,
                     tasks := (tasks st)[i := Built r]\<rparr>)
         | Built r \<Rightarrow>
             (case feedItems st of
                (p, l, c) \<Rightarrow> st\<lparr>tasks := (tasks st)[i := HeaderRead r p l c]\<rparr>)
         | HeaderRead r p l c \<Rightarrow>
             if l + 1 > c then
               (if p < length (heap st) \<and> l \<le> length (heap st ! p) then
                  st\<lparr>heap := heap st @ [growslice w (heap st ! p) l c],
                     tasks := (tasks st)
                       [i := Grown r (length (heap st)) l (max (l + 1) (GrowCap w c (l + 1)))]\<rparr>
                else st\<lparr>beyond := True\<rparr>)
             else
               (case feedItems st of
                  (p', l', c') \<Rightarrow>
                    st\<lparr>feedItems := (p', l + 1, c'),
                       tasks := (tasks st)[i := LenStored r p l]\<rparr>)
         | Grown r p l c \<Rightarrow>
             (case feedItems st of
                (p', l', c') \<Rightarrow>
                  st\<lparr>feedItems := (p, l', c), tasks := (tasks st)[i := PtrStored r p l]\<rparr>)
         | PtrStored r p l \<Rightarrow>
             (case feedItems st of
                (p', l', c') \<Rightarrow>
                  st\<lparr>feedItems := (p', l + 1, c'),
                     tasks := (tasks st)[i := LenStored r p l]\<rparr>)
         | LenStored r p l \<Rightarrow>
             if p < length (heap st) \<and> l < length (heap st ! p) then
               st\<lparr>heap := (heap st)[p := (heap st ! p)[l := r]],
                  tasks := (tasks st)[i := Finished]\<rparr>
             else st\<lparr>beyond := True\<rparr>
         | Finished \<Rightarrow> st
         | Panicking \<Rightarrow> st\<lparr>crashed := Some NilPointerDereference\<rparr>)
      else st)"

text \<open>A schedule is the order in which the goroutines take their steps.\<close>

fun run_sched :: "world \<Rightarrow> string \<Rightarrow> Feed \<Rightarrow> nat list \<Rightarrow> pstate \<Rightarrow> pstate" where
  "run_sched w url feed [] st = st"
| "run_sched w url feed (i # sched) st = run_sched w url feed sched (step w url feed i st)"

text \<open>
  What a call of \<open>Parse\<close> comes to: it returns (an error, or the slice), the process
  dies before it returns, the run has left the bounds of an array, or, when the schedule
  ends before every goroutine has called \<open>wg.Done()\<close>, \<open>wg.Wait()\<close> has not returned yet.
\<close>

datatype outcome = Return "error + RrssFeed list" | Crash crash | Undefined | Waiting

text \<open>\<open>wg.Done()\<close> has run: at the end of the goroutine, or while it panics.\<close>

fun wg_done :: "pc \<Rightarrow> bool" where
  "wg_done Finished = True"
| "wg_done Panicking = True"
| "wg_done p = False"

text \<open>
  \<open>Parse\<close>, lines 45 to 115, under a schedule of its goroutines. When every goroutine
  has called \<open>wg.Done()\<close> and the process is still alive, \<open>Parse\<close> returns the elements
  of \<open>feedItems\<close>: also when a goroutine is panicking and has not yet ended the process.
\<close>

definition Parse :: "world \<Rightarrow> nat list \<Rightarrow> string \<Rightarrow> outcome" where
  "Parse w sched url =
     (case ParseURL w url of
        Inl err \<Rightarrow> Return (Inl err)
      | Inr feed \<Rightarrow>
          (let st = run_sched w url feed sched (init_state (length (feed_Items feed)))
           in case crashed st of
                Some c \<Rightarrow> Crash c
              | None \<Rightarrow>
                  if beyond st then Undefined
                  else if list_all wg_done (tasks st) then
                    (case feedItems st of
                       (p, l, c) \<Rightarrow>
                         if p < length (heap st) \<and> l \<le> length (heap st ! p)
                         then Return (Inr (take l (heap st ! p)))
                         else Undefined)
                  else Waiting))"

text \<open>
  The schedule that runs the goroutines one after the other: six steps take a goroutine
  from its start to its end.
\<close>

definition serial :: "nat \<Rightarrow> nat list" where
  "serial n = concat (map (\<lambda>i. [i, i, i, i, i, i]) [0..<n])"

text \<open>
  Two goroutines race on \<open>feedItems\<close> when one is about to store a part of its header
  and another is about to load or store the header: nothing orders the two accesses.
\<close>

fun pending_write :: "pc \<Rightarrow> bool" where
  "pending_write (HeaderRead r p l c) = (l + 1 \<le> c)"
| "pending_write (Grown r p l c) = True"
| "pending_write (PtrStored r p l) = True"
| "pending_write p = False"

fun pending_access :: "pc \<Rightarrow> bool" where
  "pending_access (Built r) = True"
| "pending_access p = pending_write p"

definition data_race :: "pstate \<Rightarrow> bool" where
  "data_race st =
     list_ex (\<lambda>i. list_ex (\<lambda>j.
         i \<noteq> j \<and> pending_write (tasks st ! i) \<and> pending_access (tasks st ! j))
       [0..<length (tasks st)]) [0..<length (tasks st)]"

section \<open>The standalone extractor\<close>

text \<open>The loop on lines 169 to 178: keep the first longest sanitized candidate.\<close>

fun pick_largest :: "(string \<Rightarrow> string) \<Rightarrow> string \<Rightarrow> string list \<Rightarrow> string" where
  "pick_largest san article [] = article"
| "pick_largest san article (articleHtml # rest) =
     (let sanitized = san articleHtml
      in pick_largest san (if length sanitized > length article then sanitized else article) rest)"

text \<open>\<open>GetExtendedArticle\<close>, lines 150 to 183: the string and the error it returns.\<close>

definition GetExtendedArticle :: "world \<Rightarrow> string \<Rightarrow> string \<times> error option" where
  "GetExtendedArticle w link =
     (case Get w link of
        Inl err \<Rightarrow> ([], Some err)
      | Inr response \<Rightarrow>
          if StatusCode response \<ge> 200 \<and> StatusCode response \<le> 299 then
            (case Document response of
               Inl err \<Rightarrow> ([], Some err)
             | Inr articles \<Rightarrow> (pick_largest (Sanitize w) [] articles, None))
          else ([], Some (UnexpectedStatus (StatusCode response))))"

section \<open>Test doubles\<close>

text \<open>
  Concrete collaborators and feeds, for running the definitions: a sanitizer that blanks
  any text holding a \<open>script\<close> tag and passes everything else, a feed parser that
  always answers with the given feed, an extractor and an HTTP client that always give
  the given answer, a UUID source without entropy, a clock that reads the item's
  index, and slices that double their capacity when they grow.
\<close>

fun has_script :: "string \<Rightarrow> bool" where
  "has_script [] = False"
| "has_script (c # cs) = (take 7 (c # cs) = ''<script'' \<or> has_script cs)"

definition blanking :: "string \<Rightarrow> string" where
  "blanking s = (if has_script s then [] else s)"

definition test_world :: "Feed \<Rightarrow> Article option \<times> error option \<Rightarrow> error + Response \<Rightarrow> world" where
  "test_world feed article response =
     \<lparr>ParseURL = (\<lambda>u. Inr feed), ExtractFromURL = (\<lambda>i u. article), Sanitize = blanking,
      NewUUID = (\<lambda>i. Inl (External ''no entropy'')), Now = (\<lambda>i. i),
      Get = (\<lambda>u. response),
      GrowCap = (\<lambda>oldCap newLen. if newLen > oldCap + oldCap then newLen else oldCap + oldCap)\<rparr>"

definition test_item :: "string \<Rightarrow> string \<Rightarrow> string \<Rightarrow> Item" where
  "test_item link description guid =
     \<lparr>item_Link = link, item_Title = ''A title'', item_Description = description,
      item_Published = ''Mon, 02 Jan 2006 15:04:05 MST'', item_GUID = guid\<rparr>"

definition test_feed :: "Item list \<Rightarrow> Feed" where
  "test_feed items = \<lparr>feed_Title = ''Example'', feed_Items = items\<rparr>"

text \<open>The record expected for a test item without a link, from the feed at \<open>http://feed\<close>.\<close>

definition test_record :: "nat \<Rightarrow> string \<Rightarrow> string \<Rightarrow> RrssFeed" where
  "test_record i ident body =
     \<lparr>Id = ident, FeedUrl = ''http://feed'', FeedTitle = ''Example'', ItemImage = [],
      ItemTitle = [], ItemBody = body, ItemUrl = [], ItemExtendedBody = [],
      Published = ''Mon, 02 Jan 2006 15:04:05 MST'', Created = i\<rparr>"

definition refused :: "Article option \<times> error option" where
  "refused = (None, Some (External ''connection refused''))"

definition no_response :: "error + Response" where
  "no_response = Inl (External ''connection refused'')"

definition two_items :: Feed where
  "two_items = test_feed [test_item [] ''first'' ''g0'', test_item [] ''second'' ''g1'']"

definition http_world :: "error + Response \<Rightarrow> world" where
  "http_world response = test_world (test_feed []) refused response"

definition two_articles :: "error + Response" where
  "two_articles = Inr \<lparr>StatusCode = 200,
     Document = Inr [''<p>one</p>'', ''<script>alert(1)</script>'', ''<p>three</p>'', ''<p>four</p>'']\<rparr>"

definition truncated_body :: "error + Response" where
  "truncated_body = Inr \<lparr>StatusCode = 200, Document = Inl (External ''unexpected EOF'')\<rparr>"

definition not_found :: "error + Response" where
  "not_found = Inr \<lparr>StatusCode = 404, Document = Inr [''<p>one</p>'']\<rparr>"

definition failing_fetch :: Feed where
  "failing_fetch = test_feed [test_item ''http://article'' ''first'' ''g0'', test_item [] ''second'' ''g1'']"

definition illustrated :: "Article option \<times> error option" where
  "illustrated =
     (Some \<lparr>CleanedText = ''<script>alert(1)</script>'', TopImage = ''http://image''\<rparr>, None)"

text \<open>
  The record expected for the first test item when it links to \<open>http://article\<close> and the
  extractor gives the article above.
\<close>

definition illustrated_record :: "string \<Rightarrow> string \<Rightarrow> RrssFeed" where
  "illustrated_record ident body =
     \<lparr>Id = ident, FeedUrl = ''http://feed'', FeedTitle = ''Example'',
      ItemImage = ''http://image'', ItemTitle = [], ItemBody = body,
      ItemUrl = ''http://article'', ItemExtendedBody = [],
      Published = ''Mon, 02 Jan 2006 15:04:05 MST'', Created = 0\<rparr>"

section \<open>Records in flight\<close>

text \<open>
  The record a goroutine holds, and a property of every record of a state: of every
  slot of every array and of every record held by a goroutine.
\<close>

fun pc_recs :: "pc \<Rightarrow> RrssFeed list" where
  "pc_recs (Built r) = [r]"
| "pc_recs (HeaderRead r p l c) = [r]"
| "pc_recs (Grown r p l c) = [r]"
| "pc_recs (PtrStored r p l) = [r]"
| "pc_recs (LenStored r p l) = [r]"
| "pc_recs p = []"

definition holds_in :: "(RrssFeed \<Rightarrow> bool) \<Rightarrow> pstate \<Rightarrow> bool" where
  "holds_in P st =
     (list_all (list_all P) (heap st) \<and> list_all (\<lambda>p. list_all P (pc_recs p)) (tasks st))"

text \<open>
  The state between two goroutines of the serial schedule: \<open>feedItems\<close> has length \<open>l\<close>
  within its capacity, its elements are \<open>xs\<close>, and nothing has gone wrong.
\<close>

definition settled :: "pstate \<Rightarrow> nat \<Rightarrow> RrssFeed list \<Rightarrow> bool" where
  "settled st l xs =
     ((case feedItems st of
         (p, l', c) \<Rightarrow>
           l' = l \<and> p < length (heap st) \<and> length (heap st ! p) = c \<and> l \<le> c \<and>
           take l (heap st ! p) = xs) \<and>
      crashed st = None \<and> \<not> beyond st)"

section \<open>The identifier\<close>

lemma length_BePutUint32: "length (BePutUint32 v) = 4"
  by (simp add: BePutUint32_def)

lemma length_sha1_Sum: "length (sha1_Sum content) = 20"
  by (simp add: sha1_Sum_def length_BePutUint32 split: prod.split)

lemma length_EncodeToString: "length (EncodeToString src) = 2 * length src"
  by (induction src) (simp_all add: EncodeToString_def)

lemma length_hashContent: "length (hashContent content) = 40"
  by (simp add: hashContent_def length_EncodeToString length_sha1_Sum)





lemma generateId_eq:
  "generateId uuid item =
     Inr (if item_GUID item \<noteq> [] then item_GUID item else hashContent (item_Description item))"
  using length_hashContent [of "item_Description item"]
  by (auto simp: generateId_def Let_def)

text \<open>
  The digest of the empty message, computed round by round: the model gives the
  standard SHA-1 value \<open>da39a3ee...\<close>. The eighty rounds are evaluated in four runs of
  twenty.
\<close>

lemma block_rounds_more:
  "block_rounds (numeral k + n) i w (a, b, c, d, e) =
     block_rounds (pred_numeral k + n) (Suc i)
       (if i < 16 then w
        else w[i mod 16 :=
               RotateLeft32 (w ! ((i - 3) mod 16) XOR w ! ((i - 8) mod 16)
                 XOR w ! ((i - 14) mod 16) XOR w ! (i mod 16)) 1])
       (RotateLeft32 a 5 + round_f i b c d + e
          + (if i < 16 then w
             else w[i mod 16 :=
                    RotateLeft32 (w ! ((i - 3) mod 16) XOR w ! ((i - 8) mod 16)
                      XOR w ! ((i - 14) mod 16) XOR w ! (i mod 16)) 1]) ! (i mod 16)
          + round_K i,
        a, RotateLeft32 b 30, c, d)"
proof -
  have "numeral k + n = Suc (pred_numeral k + n)" by (simp add: numeral_eq_Suc)
  then show ?thesis by (simp only: block_rounds.simps Let_def)
qed

lemma list_update_numeral:
  "(x # xs)[numeral k := y] = x # xs[pred_numeral k := y]"
  by (simp add: numeral_eq_Suc)

lemmas round_defs = block_rounds_more list_update_numeral round_f_def round_K_def RotateLeft32_def
  numeral_2_eq_2 [symmetric]

lemma rounds_0_20:
  "block_rounds (20 + n) 0 [0x80000000, 0, 0, 0, 0, 0, 0, 0, 0, 0, 0, 0, 0, 0, 0, 0]
      (0x67452301, 0xEFCDAB89, 0x98BADCFE, 0x10325476, 0xC3D2E1F0)
   = block_rounds n 20 [1, 0, 0, 2, 0, 0, 0, 0, 0, 0, 0, 0, 0, 0, 0, 0]
      (3881363674, 187730141, 2318029955, 3249529948, 4131346769)"
  apply (simp add: round_defs)
  apply (rule arg_cong2 [where f = "block_rounds n 20"])
   apply simp_all
  done

lemma rounds_20_40:
  "block_rounds (20 + n) 20 [1, 0, 0, 2, 0, 0, 0, 0, 0, 0, 0, 0, 0, 0, 0, 0]
      (3881363674, 187730141, 2318029955, 3249529948, 4131346769)
   = block_rounds n 40 [6, 0, 64, 8, 40, 128, 8, 0, 2, 8, 0, 0, 16, 0, 10, 32]
      (2614877553, 1646736209, 3967835682, 1094458778, 720285282)"
  apply (simp add: round_defs)
  apply (rule arg_cong2 [where f = "block_rounds n 40"])
   apply simp_all
  done

lemma rounds_40_60:
  "block_rounds (20 + n) 40 [6, 0, 64, 8, 40, 128, 8, 0, 2, 8, 0, 0, 16, 0, 10, 32]
      (2614877553, 1646736209, 3967835682, 1094458778, 720285282)
   = block_rounds n 60
      [668, 2048, 128, 40, 4232, 0, 2624, 8192, 1640, 128, 16520, 2176, 100, 0, 1032, 136]
      (2610768147, 2553007050, 3094080200, 3315808302, 2945618682)"
  apply (simp add: round_defs)
  apply (rule arg_cong2 [where f = "block_rounds n 60"])
   apply simp_all
  done

lemma rounds_60_80:
  "block_rounds (20 + n) 60
      [668, 2048, 128, 40, 4232, 0, 2624, 8192, 1640, 128, 16520, 2176, 100, 0, 1032, 136]
      (2610768147, 2553007050, 3094080200, 3315808302, 2945618682)
   = block_rounds n 80
      [67816, 0, 40960, 131200, 25600, 0, 264192, 34816, 171024, 524288, 32896, 10272,
       1083584, 0, 671936, 2097280]
      (1928626413, 1855823748, 2577064689, 2234369050, 3959760153)"
  apply (simp add: round_defs)
  apply (rule arg_cong2 [where f = "block_rounds n 80"])
   apply simp_all
  done

lemma rounds_empty:
  "block_rounds 80 0 [0x80000000, 0, 0, 0, 0, 0, 0, 0, 0, 0, 0, 0, 0, 0, 0, 0] init_digest
     = (1928626413, 1855823748, 2577064689, 2234369050, 3959760153)"
proof -
  have "block_rounds 80 0 [0x80000000, 0, 0, 0, 0, 0, 0, 0, 0, 0, 0, 0, 0, 0, 0, 0] init_digest
      = block_rounds (20 + 60) 0 [0x80000000, 0, 0, 0, 0, 0, 0, 0, 0, 0, 0, 0, 0, 0, 0, 0]
          (0x67452301, 0xEFCDAB89, 0x98BADCFE, 0x10325476, 0xC3D2E1F0)"
    by (simp add: init_digest_def)
  also note rounds_0_20 [of 60]
  also have "block_rounds 60 20 [1, 0, 0, 2, 0, 0, 0, 0, 0, 0, 0, 0, 0, 0, 0, 0]
      (3881363674, 187730141, 2318029955, 3249529948, 4131346769)
      = block_rounds (20 + 40) 20 [1, 0, 0, 2, 0, 0, 0, 0, 0, 0, 0, 0, 0, 0, 0, 0]
      (3881363674, 187730141, 2318029955, 3249529948, 4131346769)"
    by simp
  also note rounds_20_40 [of 40]
  also have "block_rounds 40 40 [6, 0, 64, 8, 40, 128, 8, 0, 2, 8, 0, 0, 16, 0, 10, 32]
      (2614877553, 1646736209, 3967835682, 1094458778, 720285282)
      = block_rounds (20 + 20) 40 [6, 0, 64, 8, 40, 128, 8, 0, 2, 8, 0, 0, 16, 0, 10, 32]
      (2614877553, 1646736209, 3967835682, 1094458778, 720285282)"
    by simp
  also note rounds_40_60 [of 20]
  also have "block_rounds 20 60
      [668, 2048, 128, 40, 4232, 0, 2624, 8192, 1640, 128, 16520, 2176, 100, 0, 1032, 136]
      (2610768147, 2553007050, 3094080200, 3315808302, 2945618682)
      = block_rounds (20 + 0) 60
      [668, 2048, 128, 40, 4232, 0, 2624, 8192, 1640, 128, 16520, 2176, 100, 0, 1032, 136]
      (2610768147, 2553007050, 3094080200, 3315808302, 2945618682)"
    by simp
  also note rounds_60_80 [of 0]
  finally show ?thesis by simp
qed

lemma replicate_numeral': "replicate (numeral k) x = x # replicate (pred_numeral k) x"
  by (simp add: numeral_eq_Suc)

lemma padding_empty: "padding 0 = 0x80 # replicate 63 0"
  by (simp add: padding_def BePutUint64_def replicate_numeral')

lemma words_empty:
  "map (\<lambda>i. BeUint32 (0x80 # replicate 63 0) (i * 4)) [0..<16]
     = [0x80000000, 0, 0, 0, 0, 0, 0, 0, 0, 0, 0, 0, 0, 0, 0, 0]"
proof -
  have "[0..<16] = [0, 1, 2, 3, 4, 5, 6, 7, 8, 9, 10, 11, 12, 13, 14, 15 :: nat]"
    by (simp add: upt_rec)
  then show ?thesis
    by (simp add: BeUint32_def replicate_numeral')
qed

lemma block_empty:
  "block init_digest (0x80 # replicate 63 0)
     = (3661210606, 1584089869, 844480495, 2506102928, 2950170377)"
proof -
  have "block init_digest (0x80 # replicate 63 0)
      = (case init_digest of (h0, h1, h2, h3, h4) \<Rightarrow>
          (case (1928626413, 1855823748, 2577064689, 2234369050, 3959760153) of
             (a, b, c, d, e) \<Rightarrow> (h0 + a, h1 + b, h2 + c, h3 + d, h4 + e)))"
    unfolding block_def by (simp only: words_empty rounds_empty)
  also have "\<dots> = (3661210606, 1584089869, 844480495, 2506102928, 2950170377)"
    by (simp add: init_digest_def)
  finally show ?thesis .
qed

lemma sha1_Sum_empty:
  "sha1_Sum [] = [218, 57, 163, 238, 94, 107, 75, 13, 50, 85, 191, 239, 149, 96, 24, 144,
     175, 216, 7, 9]"
proof -
  have "blockGeneric init_digest ([] @ padding (length ([] :: byte list)))
      = block init_digest (0x80 # replicate 63 0)"
    by (simp add: blockGeneric_def padding_empty)
  then show ?thesis
    by (simp add: sha1_Sum_def block_empty BePutUint32_def)
qed

lemma hashContent_empty: "hashContent [] = ''da39a3ee5e6b4b0d3255bfef95601890afd80709''"
  by (simp add: hashContent_def sha1_Sum_empty EncodeToString_def hextable_def)











section \<open>One goroutine, then all of them\<close>

lemma item_task_no_fatal: "snd (item_task w url feed i) \<noteq> Inl (FatalExit e)"
  by (simp add: item_task_def generateId_eq Let_def split: prod.split option.split)

lemma item_task_title: "snd (item_task w url feed i) = Inr r \<Longrightarrow> ItemTitle r = []"
  by (auto simp: item_task_def generateId_eq Let_def split: prod.splits option.splits if_splits)

lemma item_task_bodies:
  "snd (item_task w url feed i) = Inr r \<Longrightarrow>
     ItemBody r = Sanitize w (item_Description (feed_Items feed ! i)) \<and>
     ItemExtendedBody r \<in> range (Sanitize w)"
  by (auto simp: item_task_def generateId_eq Let_def split: prod.splits option.splits if_splits)

lemma item_task_id:
  "snd (item_task w url feed i) = Inr r \<Longrightarrow>
     Id r = (if item_GUID (feed_Items feed ! i) \<noteq> [] then item_GUID (feed_Items feed ! i)
             else hashContent (item_Description (feed_Items feed ! i)))"
  by (auto simp: item_task_def generateId_eq Let_def split: prod.splits option.splits if_splits)

lemma item_task_no_link:
  "item_Link (feed_Items feed ! i) = [] \<Longrightarrow>
     item_task w url feed i =
       ([], Inr \<lparr>Id = (if item_GUID (feed_Items feed ! i) \<noteq> [] then item_GUID (feed_Items feed ! i)
             else hashContent (item_Description (feed_Items feed ! i))),
          FeedUrl = url, FeedTitle = feed_Title feed, ItemImage = [], ItemTitle = [],
          ItemBody = Sanitize w (item_Description (feed_Items feed ! i)), ItemUrl = [],
          ItemExtendedBody = Sanitize w [], Published = item_Published (feed_Items feed ! i),
          Created = Now w i\<rparr>)"
  by (simp add: item_task_def generateId_eq Let_def)

lemma item_task_nil:
  "item_Link (feed_Items feed ! i) \<noteq> [] \<Longrightarrow>
   fst (ExtractFromURL w i (item_Link (feed_Items feed ! i))) = None \<Longrightarrow>
     item_task w url feed i = ([item_Link (feed_Items feed ! i)], Inl NilPointerDereference)"
  by (auto simp: item_task_def generateId_eq Let_def extractArticle_def split: prod.splits option.splits)

lemma item_task_fetches:
  "u \<in> set (fst (item_task w url feed i)) \<Longrightarrow> u = item_Link (feed_Items feed ! i) \<and> u \<noteq> []"
  by (auto simp: item_task_def generateId_eq Let_def split: prod.splits option.splits if_splits)

lemma item_task_copies:
  "snd (item_task w url feed i) = Inr r \<Longrightarrow>
     FeedUrl r = url \<and> FeedTitle r = feed_Title feed \<and>
     ItemUrl r = item_Link (feed_Items feed ! i) \<and>
     Published r = item_Published (feed_Items feed ! i) \<and> Created r = Now w i"
  by (auto simp: item_task_def generateId_eq Let_def split: prod.splits option.splits if_splits)

lemma item_task_image:
  "snd (item_task w url feed i) = Inr r \<Longrightarrow>
     (item_Link (feed_Items feed ! i) = [] \<and> ItemImage r = []) \<or>
     (\<exists>article. fst (ExtractFromURL w i (item_Link (feed_Items feed ! i))) = Some article \<and>
        ItemImage r = TopImage article \<and>
        ItemExtendedBody r = Sanitize w (CleanedText article))"
  by (auto simp: item_task_def generateId_eq Let_def extractArticle_def
      split: prod.splits option.splits if_splits)

lemma blanking_safe: "\<not> has_script (blanking s)"
  by (simp add: blanking_def)

lemma length_tasks_step: "length (tasks (step w url feed i st)) = length (tasks st)"
  by (simp add: step_def split: pc.split prod.split sum.split crash.split)

lemma length_tasks_run: "length (tasks (run_sched w url feed sched st)) = length (tasks st)"
  by (induction sched arbitrary: st) (simp_all add: length_tasks_step)

lemma run_sched_append:
  "run_sched w url feed (a @ b) st = run_sched w url feed b (run_sched w url feed a st)"
  by (induction a arbitrary: st) simp_all

lemma list_all_update: "Q q \<Longrightarrow> list_all Q xs \<Longrightarrow> list_all Q (xs[i := q])"
  using set_update_subset_insert [of xs i q] by (auto simp: list_all_iff)

lemma list_all_nth: "list_all Q xs \<Longrightarrow> i < length xs \<Longrightarrow> Q (xs ! i)"
  by (simp add: list_all_iff)

lemma list_all_take: "list_all Q xs \<Longrightarrow> list_all Q (take n xs)"
  by (auto simp: list_all_iff dest: in_set_takeD)

lemma growslice_all:
  "P zero_RrssFeed \<Longrightarrow> list_all P array \<Longrightarrow> list_all P (growslice w array l c)"
  by (simp add: growslice_def list_all_take) (simp add: list_all_iff)

text \<open>
  A property of the zero value and of every record a goroutine builds holds of every
  record of every state.
\<close>

lemma step_holds:
  assumes new: "\<And>r. i < length (tasks st) \<Longrightarrow> snd (item_task w url feed i) = Inr r \<Longrightarrow> P r"
    and zero: "P zero_RrssFeed"
    and inv: "holds_in P st"
  shows "holds_in P (step w url feed i st)"
proof (cases "crashed st = None \<and> \<not> beyond st \<and> i < length (tasks st)")
  case False
  with inv show ?thesis by (auto simp: step_def)
next
  case True
  then have i: "i < length (tasks st)" and c: "crashed st = None" and b: "\<not> beyond st"
    by auto
  from inv have cells: "list_all (list_all P) (heap st)"
    and ts: "list_all (\<lambda>p. list_all P (pc_recs p)) (tasks st)"
    by (simp_all add: holds_in_def)
  from list_all_nth [OF ts i] have here: "list_all P (pc_recs (tasks st ! i))" .
  have upd: "list_all (\<lambda>p. list_all P (pc_recs p)) ((tasks st)[i := q])"
    if "list_all P (pc_recs q)" for q
    using that ts by (intro list_all_update)
  obtain p0 l0 c0 where hdr: "feedItems st = (p0, l0, c0)"
    by (cases "feedItems st") auto
  show ?thesis
  proof (cases "tasks st ! i")
    case Start
    obtain urls res where t: "item_task w url feed i = (urls, res)"
      by (cases "item_task w url feed i") auto
    show ?thesis
    proof (cases res)
      case (Inl cr)
      with t Start i c b cells ts upd [of Panicking] show ?thesis
        by (cases cr) (simp_all add: step_def holds_in_def)
    next
      case (Inr r)
      with t new [OF i] have "P r" by simp
      with upd [of "Built r"] t Inr Start i c b cells show ?thesis
        by (simp add: step_def holds_in_def)
    qed
  next
    case (Built r)
    with here upd [of "HeaderRead r p0 l0 c0"] hdr i c b cells show ?thesis
      by (simp add: step_def holds_in_def)
  next
    case (HeaderRead r p l cp)
    with here have r: "P r" by simp
    show ?thesis
    proof (cases "l + 1 > cp")
      case grow: True
      show ?thesis
      proof (cases "p < length (heap st) \<and> l \<le> length (heap st ! p)")
        case True
        then have "list_all P (heap st ! p)" using cells by (simp add: list_all_nth)
        then have "list_all P (growslice w (heap st ! p) l cp)"
          using zero by (intro growslice_all)
        with True grow HeaderRead r i c b cells
          upd [of "Grown r (length (heap st)) l (max (l + 1) (GrowCap w cp (l + 1)))"]
        show ?thesis by (simp add: step_def holds_in_def)
      next
        case False
        with grow HeaderRead i c b cells ts show ?thesis
          by (auto simp: step_def holds_in_def)
      qed
    next
      case False
      with HeaderRead r hdr i c b cells upd [of "LenStored r p l"] show ?thesis
        by (simp add: step_def holds_in_def)
    qed
  next
    case (Grown r p l cp)
    with here upd [of "PtrStored r p l"] hdr i c b cells show ?thesis
      by (simp add: step_def holds_in_def)
  next
    case (PtrStored r p l)
    with here upd [of "LenStored r p l"] hdr i c b cells show ?thesis
      by (simp add: step_def holds_in_def)
  next
    case (LenStored r p l)
    with here have r: "P r" by simp
    show ?thesis
    proof (cases "p < length (heap st) \<and> l < length (heap st ! p)")
      case True
      then have "list_all P (heap st ! p)" using cells by (simp add: list_all_nth)
      with r have "list_all P ((heap st ! p)[l := r])" by (intro list_all_update)
      from this cells have "list_all (list_all P) ((heap st)[p := (heap st ! p)[l := r]])"
        by (rule list_all_update)
      with True LenStored i c b upd [of Finished] show ?thesis
        by (simp add: step_def holds_in_def)
    next
      case False
      with LenStored i c b cells ts show ?thesis
        by (auto simp: step_def holds_in_def)
    qed
  next
    case Finished
    with i c b inv show ?thesis by (simp add: step_def)
  next
    case Panicking
    with i c b cells ts show ?thesis by (simp add: step_def holds_in_def)
  qed
qed

lemma run_holds:
  assumes new: "\<And>i r. i < length (tasks st) \<Longrightarrow> snd (item_task w url feed i) = Inr r \<Longrightarrow> P r"
    and zero: "P zero_RrssFeed"
    and inv: "holds_in P st"
  shows "holds_in P (run_sched w url feed sched st)"
  using new inv
proof (induction sched arbitrary: st)
  case Nil
  then show ?case by simp
next
  case (Cons i sched)
  have "holds_in P (step w url feed i st)"
    using Cons.prems zero by (intro step_holds) simp_all
  moreover have "\<And>j r. j < length (tasks (step w url feed i st)) \<Longrightarrow>
      snd (item_task w url feed j) = Inr r \<Longrightarrow> P r"
    using Cons.prems(1) by (simp add: length_tasks_step)
  ultimately show ?case using Cons.IH [of "step w url feed i st"] by simp
qed

lemma holds_in_init: "holds_in P (init_state n)"
  by (simp add: holds_in_def init_state_def list_all_iff)

text \<open>
  Every record that \<open>Parse\<close> returns is the zero value or was built by the goroutine of
  an item of the feed.
\<close>

lemma Parse_records:
  assumes "Parse w sched url = Return (Inr rs)" and "r \<in> set rs"
  shows "r = zero_RrssFeed \<or>
         (\<exists>feed. ParseURL w url = Inr feed \<and>
           (\<exists>i < length (feed_Items feed). snd (item_task w url feed i) = Inr r))"
proof (cases "ParseURL w url")
  case (Inl err)
  with assms show ?thesis by (simp add: Parse_def)
next
  case (Inr feed)
  let ?n = "length (feed_Items feed)"
  let ?st = "run_sched w url feed sched (init_state ?n)"
  let ?P = "\<lambda>r. r = zero_RrssFeed \<or> (\<exists>i < ?n. snd (item_task w url feed i) = Inr r)"
  obtain p l c where hdr: "feedItems ?st = (p, l, c)"
    by (cases "feedItems ?st") auto
  from assms(1) Inr hdr have rs: "rs = take l (heap ?st ! p)" and p: "p < length (heap ?st)"
    by (simp_all add: Parse_def Let_def split: option.splits if_splits)
  have "holds_in ?P ?st"
  proof (rule run_holds)
    show "holds_in ?P (init_state ?n)" by (rule holds_in_init)
  next
    show "?P zero_RrssFeed" by simp
  next
    fix i r
    assume "i < length (tasks (init_state ?n))" and "snd (item_task w url feed i) = Inr r"
    then show "?P r" by (auto simp: init_state_def)
  qed
  then have "list_all ?P (heap ?st ! p)"
    using p by (simp add: holds_in_def list_all_nth)
  then have "list_all ?P rs" unfolding rs by (rule list_all_take)
  with assms(2) have "?P r" by (simp add: list_all_iff)
  with Inr show ?thesis by auto
qed

lemma step_no_fatal:
  "crashed st \<noteq> Some (FatalExit e) \<Longrightarrow> crashed (step w url feed i st) \<noteq> Some (FatalExit e)"
  using item_task_no_fatal [of w url feed i e]
  by (auto simp: step_def split: pc.splits prod.splits sum.splits crash.splits)

lemma run_no_fatal:
  "crashed st \<noteq> Some (FatalExit e) \<Longrightarrow>
     crashed (run_sched w url feed sched st) \<noteq> Some (FatalExit e)"
  by (induction sched arbitrary: st) (simp_all add: step_no_fatal)

lemma Parse_no_fatal: "Parse w sched url \<noteq> Crash (FatalExit e)"
proof (cases "ParseURL w url")
  case (Inl err)
  then show ?thesis by (simp add: Parse_def)
next
  case (Inr feed)
  have "crashed (run_sched w url feed sched (init_state (length (feed_Items feed))))
      \<noteq> Some (FatalExit e)"
    by (rule run_no_fatal) (simp add: init_state_def)
  with Inr show ?thesis
    by (auto simp: Parse_def Let_def split: option.splits prod.splits)
qed

lemma step_fetches:
  "(j, u) \<in> set (fetches (step w url feed i st)) \<Longrightarrow>
     (j, u) \<in> set (fetches st) \<or> u \<in> set (fst (item_task w url feed j))"
  by (auto simp: step_def split: pc.splits prod.splits sum.splits crash.splits if_splits)

lemma run_fetches:
  "(j, u) \<in> set (fetches (run_sched w url feed sched st)) \<Longrightarrow>
     (j, u) \<in> set (fetches st) \<or> u \<in> set (fst (item_task w url feed j))"
proof (induction sched arbitrary: st)
  case Nil
  then show ?case by simp
next
  case (Cons i sched)
  from Cons.IH [of "step w url feed i st"] Cons.prems
  have "(j, u) \<in> set (fetches (step w url feed i st)) \<or> u \<in> set (fst (item_task w url feed j))"
    by simp
  then show ?case using step_fetches [of j u w url feed i st] by blast
qed

lemma Parse_feed_error: "ParseURL w url = Inl err \<Longrightarrow> Parse w sched url = Return (Inl err)"
  by (simp add: Parse_def)

text \<open>
  A goroutine whose item makes it panic never gets past the panic, and once every
  goroutine has called \<open>wg.Done()\<close> its next step ends the process.
\<close>

lemma step_panicker:
  assumes "snd (item_task w url feed i) = Inl NilPointerDereference"
    and "tasks st ! i = Start \<or> tasks st ! i = Panicking"
  shows "tasks (step w url feed j st) ! i = Start \<or> tasks (step w url feed j st) ! i = Panicking"
proof (cases "j = i")
  case True
  with assms show ?thesis
    by (auto simp: step_def split: prod.splits sum.splits crash.splits)
next
  case False
  with assms(2) show ?thesis
    by (auto simp: step_def split: pc.splits prod.splits sum.splits crash.splits)
qed

lemma run_panicker:
  assumes "snd (item_task w url feed i) = Inl NilPointerDereference"
  shows "tasks st ! i = Start \<or> tasks st ! i = Panicking \<Longrightarrow>
    tasks (run_sched w url feed sched st) ! i = Start \<or>
    tasks (run_sched w url feed sched st) ! i = Panicking"
proof (induction sched arbitrary: st)
  case Nil
  then show ?case by simp
next
  case (Cons j sched)
  from step_panicker [OF assms Cons.prems, of j] show ?case
    by (simp add: Cons.IH)
qed

lemma init_panicker:
  "i < n \<Longrightarrow> tasks (init_state n) ! i = Start"
  by (simp add: init_state_def)

lemma item_task_enrich:
  "snd (item_task w url feed i) = Inr r \<Longrightarrow>
     (item_Link (feed_Items feed ! i) = [] \<and> ItemImage r = [] \<and>
        ItemExtendedBody r = Sanitize w []) \<or>
     (\<exists>article. item_Link (feed_Items feed ! i) \<noteq> [] \<and>
        fst (ExtractFromURL w i (item_Link (feed_Items feed ! i))) = Some article \<and>
        ItemImage r = TopImage article \<and>
        ItemExtendedBody r = Sanitize w (CleanedText article))"
  by (auto simp: item_task_def generateId_eq Let_def extractArticle_def
      split: prod.splits option.splits if_splits)

text \<open>
  When no goroutine crashes, the schedule that runs the goroutines one after the other
  returns one record per item, in the order of the feed.
\<close>

lemma take_update_last: "l < length xs \<Longrightarrow> take (Suc l) (xs[l := r]) = take l xs @ [r]"
  by (simp add: take_Suc_conv_app_nth)

lemma length_growslice:
  "l \<le> length array \<Longrightarrow> length (growslice w array l c) = max (l + 1) (GrowCap w c (l + 1))"
  by (simp add: growslice_def)

lemma take_growslice_update:
  assumes "l \<le> length array"
  shows "take (Suc l) ((growslice w array l c)[l := r]) = take l array @ [r]"
proof -
  have "l < length (growslice w array l c)"
    using assms by (simp add: length_growslice)
  then have "take (Suc l) ((growslice w array l c)[l := r])
      = take l (growslice w array l c) @ [r]"
    by (rule take_update_last)
  also have "take l (growslice w array l c) = take l array"
    using assms by (simp add: growslice_def)
  finally show ?thesis .
qed

lemma six_steps:
  assumes s: "settled st l xs" and k: "k < length (tasks st)" and start: "tasks st ! k = Start"
    and r: "snd (item_task w url feed k) = Inr r"
  shows "settled (run_sched w url feed [k, k, k, k, k, k] st) (Suc l) (xs @ [r]) \<and>
         tasks (run_sched w url feed [k, k, k, k, k, k] st) = (tasks st)[k := Finished]"
proof -
  obtain urls where t: "item_task w url feed k = (urls, Inr r)"
    using r by (cases "item_task w url feed k") auto
  obtain p c where hdr: "feedItems st = (p, l, c)" and p: "p < length (heap st)"
    and len: "length (heap st ! p) = c" and l: "l \<le> c" and xs: "take l (heap st ! p) = xs"
    and cr: "crashed st = None" and b: "\<not> beyond st"
    using s by (cases "feedItems st") (auto simp: settled_def)
  show ?thesis
  proof (cases "l + 1 > c")
    case True
    have "l \<le> length (heap st ! p)" using l len by simp
    with True t hdr p len xs cr b k start show ?thesis
      by (simp add: step_def settled_def length_growslice take_growslice_update
          nth_append)
  next
    case False
    then have "l < length (heap st ! p)" using len by simp
    with False t hdr p len xs cr b k start show ?thesis
      by (simp add: step_def settled_def take_update_last)
  qed
qed

lemma serial_Suc: "serial (Suc k) = serial k @ [k, k, k, k, k, k]"
  by (simp add: serial_def)

lemma replicate_update:
  assumes "k < n"
  shows "(replicate k a @ replicate (n - k) b)[k := a]
     = replicate (Suc k) a @ replicate (n - Suc k) b"
proof -
  from assms obtain m where "n - k = Suc m" and "n - Suc k = m"
    by (cases "n - k") auto
  then show ?thesis
    by (simp add: list_update_append replicate_app_Cons_same)
qed

lemma serial_run:
  assumes "\<forall>i < length rs. snd (item_task w url feed i) = Inr (rs ! i)" and "k \<le> length rs"
  shows "settled (run_sched w url feed (serial k) (init_state (length rs))) k (take k rs) \<and>
         tasks (run_sched w url feed (serial k) (init_state (length rs)))
           = replicate k Finished @ replicate (length rs - k) Start"
  using assms(2)
proof (induction k)
  case 0
  show ?case by (simp add: serial_def init_state_def settled_def)
next
  case (Suc k)
  let ?st = "run_sched w url feed (serial k) (init_state (length rs))"
  from Suc have k: "k < length rs" and s: "settled ?st k (take k rs)"
    and ts: "tasks ?st = replicate k Finished @ replicate (length rs - k) Start"
    by simp_all
  from k ts have len: "k < length (tasks ?st)" by simp
  from k ts have start: "tasks ?st ! k = Start" by (simp add: nth_append)
  from assms(1) k have r: "snd (item_task w url feed k) = Inr (rs ! k)" by simp
  note six = six_steps [OF s len start r]
  have "take k rs @ [rs ! k] = take (Suc k) rs"
    using k by (simp add: take_Suc_conv_app_nth)
  with six ts k show ?case
    by (simp only: serial_Suc run_sched_append replicate_update)
qed

lemma serial_complete:
  assumes "ParseURL w url = Inr feed" and "length rs = length (feed_Items feed)"
    and "\<forall>i < length rs. snd (item_task w url feed i) = Inr (rs ! i)"
  shows "Parse w (serial (length rs)) url = Return (Inr rs)"
proof -
  let ?st = "run_sched w url feed (serial (length rs)) (init_state (length rs))"
  from serial_run [OF assms(3), of "length rs"]
  have s: "settled ?st (length rs) rs" and ts: "tasks ?st = replicate (length rs) Finished"
    by simp_all
  obtain p c where "feedItems ?st = (p, length rs, c)" and "p < length (heap ?st)"
    and "length rs \<le> length (heap ?st ! p)" and "take (length rs) (heap ?st ! p) = rs"
    and "crashed ?st = None" and "\<not> beyond ?st"
    using s by (cases "feedItems ?st") (auto simp: settled_def)
  with ts assms(1,2) show ?thesis
    by (simp add: Parse_def Let_def list_all_iff)
qed

section \<open>The largest article\<close>

lemma pick_largest_ge: "length article \<le> length (pick_largest san article xs)"
proof (induction xs arbitrary: article)
  case Nil
  show ?case by simp
next
  case (Cons x xs)
  show ?case
    using Cons.IH [of "san x"] Cons.IH [of article] by (simp add: Let_def)
qed

lemma pick_largest_max: "x \<in> set xs \<Longrightarrow> length (san x) \<le> length (pick_largest san article xs)"
proof (induction xs arbitrary: article)
  case Nil
  then show ?case by simp
next
  case (Cons y ys)
  show ?case
  proof (cases "x = y")
    case True
    then show ?thesis
      using pick_largest_ge [of "san y" san ys] pick_largest_ge [of article san ys]
      by (simp add: Let_def)
  next
    case False
    with Cons.prems have "x \<in> set ys" by simp
    then show ?thesis using Cons.IH by (simp add: Let_def)
  qed
qed

lemma pick_largest_from:
  "pick_largest san article xs = article \<or> pick_largest san article xs \<in> san ` set xs"
proof (induction xs arbitrary: article)
  case Nil
  show ?case by simp
next
  case (Cons x xs)
  show ?case
    using Cons.IH [of "san x"] Cons.IH [of article] by (auto simp: Let_def)
qed

lemma pick_largest_member:
  assumes "xs \<noteq> []"
  shows "pick_largest san [] xs \<in> san ` set xs"
proof (cases "pick_largest san [] xs = []")
  case True
  from assms obtain x where x: "x \<in> set xs" by (cases xs) auto
  from pick_largest_max [OF x, of san "[]"] True have "san x = []" by simp
  with x True show ?thesis by force
next
  case False
  with pick_largest_from [of san "[]" xs] show ?thesis by simp
qed

text \<open>The equations that run the definitions on the test doubles.\<close>

lemmas run_defs = Parse_def test_world_def test_feed_def test_item_def test_record_def
  init_state_def step_def item_task_def generateId_eq Let_def blanking_def two_items_def
  refused_def no_response_def extractArticle_def growslice_def illustrated_def
  illustrated_record_def failing_fetch_def

section \<open>Claims about the identifier\<close>



text \<open>
  C9. \<open>generateId\<close> is total and never returns an error: it always returns a non-empty
  id, the hash of any description has forty characters (that of the empty description
  is \<open>da39a3ee5e6b4b0d3255bfef95601890afd80709\<close>), the answer
  of the UUID source never matters (the fallback is unreachable), and neither a goroutine
  nor \<open>Parse\<close> ever reaches the \<open>log.Fatal\<close> of line 70.
\<close>

theorem generateId_total:
  "(\<exists>ident. generateId uuid item = Inr ident \<and> ident \<noteq> []) \<and>
   length (hashContent (item_Description item)) = 40 \<and>
   hashContent [] = ''da39a3ee5e6b4b0d3255bfef95601890afd80709'' \<and>
   generateId uuid item = generateId uuid' item \<and>
   snd (item_task w url feed i) \<noteq> Inl (FatalExit e) \<and>
   Parse w sched url \<noteq> Crash (FatalExit e)"
proof -
  have "hashContent (item_Description item) \<noteq> []"
    using length_hashContent [of "item_Description item"] by auto
  then have "\<exists>ident. generateId uuid item = Inr ident \<and> ident \<noteq> []"
    by (simp add: generateId_eq)
  then show ?thesis
    by (simp add: length_hashContent generateId_eq item_task_no_fatal Parse_no_fatal
        hashContent_empty)
qed

section \<open>Claims about the records\<close>

text \<open>
  C10. The record built for an item has the empty string as its \<open>ItemTitle\<close>, and so
  has every record that \<open>Parse\<close> returns, under every schedule: the item's title is
  never copied.
\<close>

theorem ItemTitle_empty:
  "(snd (item_task w url feed i) = Inr r \<longrightarrow> ItemTitle r = []) \<and>
   (Parse w sched url = Return (Inr rs) \<longrightarrow> list_all (\<lambda>r. ItemTitle r = []) rs)"
proof -
  have "list_all (\<lambda>r. ItemTitle r = []) rs" if "Parse w sched url = Return (Inr rs)"
    unfolding list_all_iff
  proof
    fix x assume "x \<in> set rs"
    with that Parse_records [of w sched url rs x] item_task_title
    show "ItemTitle x = []" by (auto simp: zero_RrssFeed_def)
  qed
  then show ?thesis using item_task_title by blast
qed

theorem ItemTitle_empty_witness:
  "item_Title (test_item [] ''first'' ''g0'') = ''A title'' \<and>
   Parse (test_world two_items refused no_response)
       [0, 0, 0, 0, 0, 0, 1, 1, 1, 1, 1, 1] ''http://feed''
     = Return (Inr [test_record 0 ''g0'' ''first'', test_record 1 ''g1'' ''second'']) \<and>
   list_all (\<lambda>r. ItemTitle r = []) [test_record 0 ''g0'' ''first'', test_record 1 ''g1'' ''second'']"
proof -
  let ?w = "test_world two_items refused no_response"
  have run: "Parse ?w [0, 0, 0, 0, 0, 0, 1, 1, 1, 1, 1, 1] ''http://feed''
     = Return (Inr [test_record 0 ''g0'' ''first'', test_record 1 ''g1'' ''second''])"
    by (simp add: run_defs)
  from ItemTitle_empty [of ?w "''http://feed''" two_items 0 "test_record 0 ''g0'' ''first''"
      "[0, 0, 0, 0, 0, 0, 1, 1, 1, 1, 1, 1]"
      "[test_record 0 ''g0'' ''first'', test_record 1 ''g1'' ''second'']"] run
  have "list_all (\<lambda>r. ItemTitle r = [])
      [test_record 0 ''g0'' ''first'', test_record 1 ''g1'' ''second'']" by blast
  with run show ?thesis by (simp add: test_item_def)
qed

text \<open>
  C7, as amended. When no output of the sanitizer holds unsafe markup, and the empty
  string holds none, the two text fields \<open>ItemBody\<close> and \<open>ItemExtendedBody\<close> of every
  record that \<open>Parse\<close> returns hold none. Such a record is the zero value or was built
  for an item of the feed, and then its other fields are copies: the id is the one
  resolved for the item, \<open>FeedUrl\<close> is the caller's URL, \<open>FeedTitle\<close>, \<open>ItemUrl\<close> and
  \<open>Published\<close> come from the feed as they are, \<open>ItemBody\<close> is the sanitized description,
  and \<open>ItemImage\<close> and \<open>ItemExtendedBody\<close> are empty and the sanitized empty string for an
  item without a link, the extractor's top image as it is and its sanitized text
  otherwise.
\<close>

theorem sanitized_text_fields:
  "(\<forall>s. safe (Sanitize w s)) \<and> safe [] \<and>
   Parse w sched url = Return (Inr rs) \<and> r \<in> set rs \<longrightarrow>
     safe (ItemBody r) \<and> safe (ItemExtendedBody r) \<and>
     (r = zero_RrssFeed \<or>
      (\<exists>feed i. ParseURL w url = Inr feed \<and> i < length (feed_Items feed) \<and>
         Inr (Id r) = generateId (NewUUID w i) (feed_Items feed ! i) \<and>
         FeedUrl r = url \<and> FeedTitle r = feed_Title feed \<and>
         ItemUrl r = item_Link (feed_Items feed ! i) \<and>
         Published r = item_Published (feed_Items feed ! i) \<and>
         ItemBody r = Sanitize w (item_Description (feed_Items feed ! i)) \<and>
         ((item_Link (feed_Items feed ! i) = [] \<and> ItemImage r = [] \<and>
             ItemExtendedBody r = Sanitize w []) \<or>
          (\<exists>article. item_Link (feed_Items feed ! i) \<noteq> [] \<and>
             fst (ExtractFromURL w i (item_Link (feed_Items feed ! i))) = Some article \<and>
             ItemImage r = TopImage article \<and>
             ItemExtendedBody r = Sanitize w (CleanedText article)))))"
proof
  assume a: "(\<forall>s. safe (Sanitize w s)) \<and> safe [] \<and>
   Parse w sched url = Return (Inr rs) \<and> r \<in> set rs"
  from a Parse_records [of w sched url rs r]
  consider (blank) "r = zero_RrssFeed"
    | (built) feed i where "ParseURL w url = Inr feed" and "i < length (feed_Items feed)"
        and "snd (item_task w url feed i) = Inr r"
    by blast
  then show "safe (ItemBody r) \<and> safe (ItemExtendedBody r) \<and>
     (r = zero_RrssFeed \<or>
      (\<exists>feed i. ParseURL w url = Inr feed \<and> i < length (feed_Items feed) \<and>
         Inr (Id r) = generateId (NewUUID w i) (feed_Items feed ! i) \<and>
         FeedUrl r = url \<and> FeedTitle r = feed_Title feed \<and>
         ItemUrl r = item_Link (feed_Items feed ! i) \<and>
         Published r = item_Published (feed_Items feed ! i) \<and>
         ItemBody r = Sanitize w (item_Description (feed_Items feed ! i)) \<and>
         ((item_Link (feed_Items feed ! i) = [] \<and> ItemImage r = [] \<and>
             ItemExtendedBody r = Sanitize w []) \<or>
          (\<exists>article. item_Link (feed_Items feed ! i) \<noteq> [] \<and>
             fst (ExtractFromURL w i (item_Link (feed_Items feed ! i))) = Some article \<and>
             ItemImage r = TopImage article \<and>
             ItemExtendedBody r = Sanitize w (CleanedText article)))))"
  proof cases
    case blank
    with a show ?thesis by (simp add: zero_RrssFeed_def)
  next
    case built
    note t = built(3)
    from item_task_bodies [OF t] a have "safe (ItemBody r)" and "safe (ItemExtendedBody r)"
      by auto
    moreover from item_task_id [OF t]
    have "Inr (Id r) = generateId (NewUUID w i) (feed_Items feed ! i)"
      by (simp add: generateId_eq)
    moreover from item_task_bodies [OF t]
    have "ItemBody r = Sanitize w (item_Description (feed_Items feed ! i))" by simp
    ultimately show ?thesis
      using built(1,2) item_task_copies [OF t] item_task_enrich [OF t] by blast
  qed
qed

theorem sanitized_text_fields_witness:
  "Parse (test_world (test_feed [test_item ''http://article'' ''<script>alert(1)</script>'' ''g0''])
       illustrated no_response) [0, 0, 0, 0, 0, 0] ''http://feed''
     = Return (Inr [illustrated_record ''g0'' []]) \<and>
   \<not> has_script [] \<and>
   \<not> has_script (ItemBody (illustrated_record ''g0'' [])) \<and>
   \<not> has_script (ItemExtendedBody (illustrated_record ''g0'' [])) \<and>
   ItemImage (illustrated_record ''g0'' []) = ''http://image''"
proof -
  let ?feed = "test_feed [test_item ''http://article'' ''<script>alert(1)</script>'' ''g0'']"
  let ?w = "test_world ?feed illustrated no_response"
  let ?r = "illustrated_record ''g0'' []"
  have run: "Parse ?w [0, 0, 0, 0, 0, 0] ''http://feed'' = Return (Inr [?r])"
    by (simp add: run_defs)
  have san: "\<forall>s. \<not> has_script (Sanitize ?w s)"
    by (simp add: test_world_def blanking_safe)
  have empty: "\<not> has_script []" by simp
  have mem: "?r \<in> set [?r]" by simp
  from san empty run mem
  have "(\<forall>s. \<not> has_script (Sanitize ?w s)) \<and> \<not> has_script [] \<and>
      Parse ?w [0, 0, 0, 0, 0, 0] ''http://feed'' = Return (Inr [?r]) \<and> ?r \<in> set [?r]"
    by blast
  with sanitized_text_fields [where safe = "\<lambda>s. \<not> has_script s" and w = ?w
      and sched = "[0, 0, 0, 0, 0, 0]" and url = "''http://feed''" and rs = "[?r]" and r = ?r]
  have concl: "\<not> has_script (ItemBody ?r) \<and> \<not> has_script (ItemExtendedBody ?r) \<and>
     (?r = zero_RrssFeed \<or>
      (\<exists>feed i. ParseURL ?w ''http://feed'' = Inr feed \<and> i < length (feed_Items feed) \<and>
         Inr (Id ?r) = generateId (NewUUID ?w i) (feed_Items feed ! i) \<and>
         FeedUrl ?r = ''http://feed'' \<and> FeedTitle ?r = feed_Title feed \<and>
         ItemUrl ?r = item_Link (feed_Items feed ! i) \<and>
         Published ?r = item_Published (feed_Items feed ! i) \<and>
         ItemBody ?r = Sanitize ?w (item_Description (feed_Items feed ! i)) \<and>
         ((item_Link (feed_Items feed ! i) = [] \<and> ItemImage ?r = [] \<and>
             ItemExtendedBody ?r = Sanitize ?w []) \<or>
          (\<exists>article. item_Link (feed_Items feed ! i) \<noteq> [] \<and>
             fst (ExtractFromURL ?w i (item_Link (feed_Items feed ! i))) = Some article \<and>
             ItemImage ?r = TopImage article \<and>
             ItemExtendedBody ?r = Sanitize ?w (CleanedText article)))))"
    by (rule mp)
  have "ItemImage ?r = ''http://image''"
    using concl
    by (auto simp: test_world_def test_feed_def test_item_def illustrated_def
        illustrated_record_def zero_RrssFeed_def)
  with concl run empty show ?thesis by blast
qed

text \<open>
  C7 as the specification states it fails: a GUID is copied into \<open>Id\<close> as it is, markup
  included, even with a sanitizer that blanks every text holding a script tag.
\<close>

theorem unsanitized_id_counterexample:
  "Parse (test_world (test_feed [test_item [] ''hi'' ''<script>alert(1)</script>''])
       refused no_response) [0, 0, 0, 0, 0, 0] ''http://feed''
     = Return (Inr [test_record 0 ''<script>alert(1)</script>'' ''hi'']) \<and>
   has_script (Id (test_record 0 ''<script>alert(1)</script>'' ''hi''))"
  by (simp add: run_defs)

text \<open>
  C6. For an item whose link is empty the goroutine fetches nothing, and its record has
  an empty image and the sanitized empty string as extended body, which is empty for a
  sanitizer that maps the empty string to itself; its id and body are the resolved id
  and the sanitized description. No run logs a fetch for that item, and every record
  that \<open>Parse\<close> returns with an empty \<open>ItemUrl\<close> has an empty extended body and an
  empty image.
\<close>

theorem empty_link_no_fetch:
  "(Sanitize w [] = [] \<and> item_Link (feed_Items feed ! i) = [] \<longrightarrow>
      fst (item_task w url feed i) = [] \<and>
      (\<exists>r. snd (item_task w url feed i) = Inr r \<and>
         ItemExtendedBody r = [] \<and> ItemImage r = [] \<and>
         ItemBody r = Sanitize w (item_Description (feed_Items feed ! i)) \<and>
         Inr (Id r) = generateId (NewUUID w i) (feed_Items feed ! i)) \<and>
      (i, u) \<notin> set (fetches (run_sched w url feed sched (init_state n)))) \<and>
   (Sanitize w [] = [] \<and> Parse w sched url = Return (Inr rs) \<and> r \<in> set rs \<and> ItemUrl r = []
      \<longrightarrow> ItemExtendedBody r = [] \<and> ItemImage r = [])"
proof (intro conjI impI)
  assume a: "Sanitize w [] = [] \<and> item_Link (feed_Items feed ! i) = []"
  then have t: "item_task w url feed i =
       ([], Inr \<lparr>Id = (if item_GUID (feed_Items feed ! i) \<noteq> [] then item_GUID (feed_Items feed ! i)
             else hashContent (item_Description (feed_Items feed ! i))),
          FeedUrl = url, FeedTitle = feed_Title feed, ItemImage = [], ItemTitle = [],
          ItemBody = Sanitize w (item_Description (feed_Items feed ! i)), ItemUrl = [],
          ItemExtendedBody = Sanitize w [], Published = item_Published (feed_Items feed ! i),
          Created = Now w i\<rparr>)"
    by (simp add: item_task_no_link)
  from t show "fst (item_task w url feed i) = []" by simp
  from t a show "\<exists>r. snd (item_task w url feed i) = Inr r \<and>
         ItemExtendedBody r = [] \<and> ItemImage r = [] \<and>
         ItemBody r = Sanitize w (item_Description (feed_Items feed ! i)) \<and>
         Inr (Id r) = generateId (NewUUID w i) (feed_Items feed ! i)"
    by (simp add: generateId_eq)
  show "(i, u) \<notin> set (fetches (run_sched w url feed sched (init_state n)))"
  proof
    assume "(i, u) \<in> set (fetches (run_sched w url feed sched (init_state n)))"
    from run_fetches [OF this] t show False by (simp add: init_state_def)
  qed
next
  assume a: "Sanitize w [] = [] \<and> Parse w sched url = Return (Inr rs) \<and> r \<in> set rs \<and> ItemUrl r = []"
  from a Parse_records [of w sched url rs r]
  consider (blank) "r = zero_RrssFeed"
    | (built) feed' j where "snd (item_task w url feed' j) = Inr r"
    by blast
  then have "ItemExtendedBody r = [] \<and> ItemImage r = []"
  proof cases
    case blank
    then show ?thesis by (simp add: zero_RrssFeed_def)
  next
    case built
    from item_task_copies [OF built] a have "item_Link (feed_Items feed' ! j) = []" by simp
    from item_task_no_link [OF this, of w url] built a show ?thesis by auto
  qed
  then show "ItemExtendedBody r = []" and "ItemImage r = []" by simp_all
qed

theorem empty_link_no_fetch_witness:
  "Sanitize (test_world (test_feed [test_item [] ''<b>hi</b>'' ''abc'']) refused no_response) [] = [] \<and>
   Parse (test_world (test_feed [test_item [] ''<b>hi</b>'' ''abc'']) refused no_response)
       [0, 0, 0, 0, 0, 0] ''http://feed''
     = Return (Inr [test_record 0 ''abc'' ''<b>hi</b>'']) \<and>
   ItemExtendedBody (test_record 0 ''abc'' ''<b>hi</b>'') = [] \<and>
   ItemImage (test_record 0 ''abc'' ''<b>hi</b>'') = [] \<and>
   (0, ''http://article'') \<notin> set (fetches (run_sched
       (test_world (test_feed [test_item [] ''<b>hi</b>'' ''abc'']) refused no_response)
       ''http://feed'' (test_feed [test_item [] ''<b>hi</b>'' ''abc'']) [0, 0, 0, 0, 0, 0]
       (init_state 1)))"
proof -
  let ?feed = "test_feed [test_item [] ''<b>hi</b>'' ''abc'']"
  let ?w = "test_world ?feed refused no_response"
  let ?r = "test_record 0 ''abc'' ''<b>hi</b>''"
  have san: "Sanitize ?w [] = []"
    by (simp add: test_world_def blanking_def)
  have link: "item_Link (feed_Items ?feed ! 0) = []"
    by (simp add: test_feed_def test_item_def)
  have run: "Parse ?w [0, 0, 0, 0, 0, 0] ''http://feed'' = Return (Inr [?r])"
    by (simp add: run_defs)
  have url: "ItemUrl ?r = []" by (simp add: test_record_def)
  note inst = empty_link_no_fetch [where w = ?w and feed = ?feed and i = 0 and n = 1
      and url = "''http://feed''" and sched = "[0, 0, 0, 0, 0, 0]" and rs = "[?r]" and r = ?r
      and u = "''http://article''"]
  from inst san link have "(0, ''http://article'') \<notin> set (fetches (run_sched ?w
       ''http://feed'' ?feed [0, 0, 0, 0, 0, 0] (init_state 1)))"
    by blast
  moreover from inst san run url have "ItemExtendedBody ?r = [] \<and> ItemImage ?r = []"
    by simp
  ultimately show ?thesis using san run by blast
qed

section \<open>Claims about the standalone extractor\<close>

text \<open>
  C8, as amended. \<open>GetExtendedArticle\<close> returns the empty string and the error when
  the fetch fails, when the status code is outside 200 to 299 (the error then names the
  code), and when the body of a 2xx response does not parse. For a 2xx response whose
  body parses it returns no error and a string that is empty when the page has no
  article element, is otherwise the sanitized content of one of them, and is at least as
  long as the sanitized content of each.
\<close>

theorem GetExtendedArticle_cases:
  "(Get w link = Inl err \<longrightarrow> GetExtendedArticle w link = ([], Some err)) \<and>
   (Get w link = Inr response \<and> \<not> (200 \<le> StatusCode response \<and> StatusCode response \<le> 299) \<longrightarrow>
      GetExtendedArticle w link = ([], Some (UnexpectedStatus (StatusCode response)))) \<and>
   (Get w link = Inr response \<and> 200 \<le> StatusCode response \<and> StatusCode response \<le> 299 \<and>
    Document response = Inl err \<longrightarrow> GetExtendedArticle w link = ([], Some err)) \<and>
   (Get w link = Inr response \<and> 200 \<le> StatusCode response \<and> StatusCode response \<le> 299 \<and>
    Document response = Inr articles \<longrightarrow>
      (\<exists>article. GetExtendedArticle w link = (article, None) \<and>
         (articles = [] \<longrightarrow> article = []) \<and>
         (articles \<noteq> [] \<longrightarrow> article \<in> Sanitize w ` set articles) \<and>
         (\<forall>x \<in> set articles. length (Sanitize w x) \<le> length article)))"
proof -
  have "pick_largest (Sanitize w) [] articles \<in> Sanitize w ` set articles" if "articles \<noteq> []"
    using that by (rule pick_largest_member)
  moreover have "\<forall>x \<in> set articles.
      length (Sanitize w x) \<le> length (pick_largest (Sanitize w) [] articles)"
    by (simp add: pick_largest_max)
  ultimately show ?thesis
    by (auto simp: GetExtendedArticle_def)
qed

theorem GetExtendedArticle_cases_witness:
  "GetExtendedArticle (http_world no_response) ''http://a''
     = ([], Some (External ''connection refused'')) \<and>
   GetExtendedArticle (http_world not_found) ''http://a'' = ([], Some (UnexpectedStatus 404)) \<and>
   GetExtendedArticle (http_world truncated_body) ''http://a''
     = ([], Some (External ''unexpected EOF'')) \<and>
   GetExtendedArticle (http_world two_articles) ''http://a'' = (''<p>three</p>'', None) \<and>
   ''<p>three</p>'' \<in> Sanitize (http_world two_articles) `
      set [''<p>one</p>'', ''<script>alert(1)</script>'', ''<p>three</p>'', ''<p>four</p>'']"
proof -
  let ?articles = "[''<p>one</p>'', ''<script>alert(1)</script>'', ''<p>three</p>'', ''<p>four</p>'']"
  have e: "Get (http_world two_articles) ''http://a''
      = Inr \<lparr>StatusCode = 200, Document = Inr ?articles\<rparr>"
    by (simp add: http_world_def test_world_def two_articles_def)
  have a: "Get (http_world no_response) ''http://a'' = Inl (External ''connection refused'')"
    by (simp add: http_world_def test_world_def no_response_def)
  have b: "Get (http_world not_found) ''http://a''
      = Inr \<lparr>StatusCode = 404, Document = Inr [''<p>one</p>'']\<rparr>"
    by (simp add: http_world_def test_world_def not_found_def)
  have c: "Get (http_world truncated_body) ''http://a''
      = Inr \<lparr>StatusCode = 200, Document = Inl (External ''unexpected EOF'')\<rparr>"
    by (simp add: http_world_def test_world_def truncated_body_def)
  have d: "GetExtendedArticle (http_world two_articles) ''http://a'' = (''<p>three</p>'', None)"
    by (simp add: GetExtendedArticle_def http_world_def test_world_def two_articles_def
        blanking_def Let_def)
  from GetExtendedArticle_cases [where w = "http_world no_response" and link = "''http://a''"
      and err = "External ''connection refused''", THEN conjunct1] a
  have a': "GetExtendedArticle (http_world no_response) ''http://a''
     = ([], Some (External ''connection refused''))" by (rule mp)
  from GetExtendedArticle_cases [where w = "http_world not_found" and link = "''http://a''"
      and response = "\<lparr>StatusCode = 404, Document = Inr [''<p>one</p>'']\<rparr>",
      THEN conjunct2, THEN conjunct1] b
  have b': "GetExtendedArticle (http_world not_found) ''http://a'' = ([], Some (UnexpectedStatus 404))"
    by simp
  from GetExtendedArticle_cases [where w = "http_world truncated_body" and link = "''http://a''"
      and response = "\<lparr>StatusCode = 200, Document = Inl (External ''unexpected EOF'')\<rparr>"
      and err = "External ''unexpected EOF''",
      THEN conjunct2, THEN conjunct2, THEN conjunct1] c
  have c': "GetExtendedArticle (http_world truncated_body) ''http://a''
     = ([], Some (External ''unexpected EOF''))"
    by simp
  have "Get (http_world two_articles) ''http://a''
        = Inr \<lparr>StatusCode = 200, Document = Inr ?articles\<rparr> \<and>
      200 \<le> StatusCode \<lparr>StatusCode = 200, Document = Inr ?articles\<rparr> \<and>
      StatusCode \<lparr>StatusCode = 200, Document = Inr ?articles\<rparr> \<le> 299 \<and>
      Document \<lparr>StatusCode = 200, Document = Inr ?articles\<rparr> = Inr ?articles"
    using e by simp
  with GetExtendedArticle_cases [where w = "http_world two_articles" and link = "''http://a''"
      and response = "\<lparr>StatusCode = 200, Document = Inr ?articles\<rparr>"
      and articles = ?articles,
      THEN conjunct2, THEN conjunct2, THEN conjunct2]
  have "\<exists>article. GetExtendedArticle (http_world two_articles) ''http://a'' = (article, None) \<and>
      (?articles = [] \<longrightarrow> article = []) \<and>
      (?articles \<noteq> [] \<longrightarrow> article \<in> Sanitize (http_world two_articles) ` set ?articles) \<and>
      (\<forall>x \<in> set ?articles. length (Sanitize (http_world two_articles) x) \<le> length article)"
    by (rule mp)
  then obtain article where
    "GetExtendedArticle (http_world two_articles) ''http://a'' = (article, None)"
    and "article \<in> Sanitize (http_world two_articles) ` set ?articles"
    by blast
  with d have d': "''<p>three</p>'' \<in> Sanitize (http_world two_articles) ` set ?articles"
    by simp
  from a' b' c' d d' show ?thesis by blast
qed

text \<open>
  C8 as the specification states it fails: a 2xx response whose body does not parse
  gives an error.
\<close>

theorem unparsed_body_counterexample:
  "Get (http_world truncated_body) ''http://a''
     = Inr \<lparr>StatusCode = 200, Document = Inl (External ''unexpected EOF'')\<rparr> \<and>
   GetExtendedArticle (http_world truncated_body) ''http://a''
     = ([], Some (External ''unexpected EOF''))"
  by (simp add: GetExtendedArticle_def http_world_def test_world_def truncated_body_def)

section \<open>Claims about the pipeline\<close>

text \<open>
  C3. The specification asks that an item whose article fetch fails still gets its
  record, with an empty extended body and image. The code logs the error and goes on
  to read \<open>article.CleanedText\<close>: when the extractor gives a \<open>nil\<close> article for an item
  with a link, the goroutine fetches, panics and builds no record. Under every schedule
  it is at its start or panicking, and whenever \<open>Parse\<close> returns a list, the next step
  of that goroutine ends the process.
\<close>

theorem nil_article_panics:
  "ParseURL w url = Inr feed \<and> i < length (feed_Items feed) \<and>
   item_Link (feed_Items feed ! i) \<noteq> [] \<and>
   fst (ExtractFromURL w i (item_Link (feed_Items feed ! i))) = None \<longrightarrow>
     item_task w url feed i = ([item_Link (feed_Items feed ! i)], Inl NilPointerDereference) \<and>
     (tasks (run_sched w url feed sched (init_state (length (feed_Items feed)))) ! i = Start \<or>
      tasks (run_sched w url feed sched (init_state (length (feed_Items feed)))) ! i = Panicking) \<and>
     (Parse w sched url = Return (Inr rs) \<longrightarrow>
        Parse w (sched @ [i]) url = Crash NilPointerDereference)"
proof
  let ?n = "length (feed_Items feed)"
  let ?st = "run_sched w url feed sched (init_state ?n)"
  assume a: "ParseURL w url = Inr feed \<and> i < length (feed_Items feed) \<and>
   item_Link (feed_Items feed ! i) \<noteq> [] \<and>
   fst (ExtractFromURL w i (item_Link (feed_Items feed ! i))) = None"
  then have t: "item_task w url feed i
      = ([item_Link (feed_Items feed ! i)], Inl NilPointerDereference)"
    by (simp add: item_task_nil)
  then have t': "snd (item_task w url feed i) = Inl NilPointerDereference" by simp
  from a have "tasks (init_state ?n) ! i = Start" by (simp add: init_panicker)
  then have pc: "tasks ?st ! i = Start \<or> tasks ?st ! i = Panicking"
    by (intro run_panicker [OF t']) simp
  have "Parse w (sched @ [i]) url = Crash NilPointerDereference"
    if ret: "Parse w sched url = Return (Inr rs)"
  proof -
    from ret a have c: "crashed ?st = None" and b: "\<not> beyond ?st"
      and d: "list_all wg_done (tasks ?st)"
      by (simp_all add: Parse_def Let_def split: option.splits if_splits prod.splits)
    have len: "i < length (tasks ?st)"
      using a by (simp add: length_tasks_run init_state_def)
    with d have "wg_done (tasks ?st ! i)" by (simp add: list_all_nth)
    with pc have "tasks ?st ! i = Panicking" by auto
    with c b len have "crashed (step w url feed i ?st) = Some NilPointerDereference"
      by (simp add: step_def)
    with a show ?thesis
      by (simp add: Parse_def Let_def run_sched_append)
  qed
  with t pc show "item_task w url feed i
      = ([item_Link (feed_Items feed ! i)], Inl NilPointerDereference) \<and>
     (tasks ?st ! i = Start \<or> tasks ?st ! i = Panicking) \<and>
     (Parse w sched url = Return (Inr rs) \<longrightarrow>
        Parse w (sched @ [i]) url = Crash NilPointerDereference)"
    by blast
qed

theorem nil_article_panics_witness:
  "ExtractFromURL (test_world failing_fetch refused no_response) 0 ''http://article''
     = (None, Some (External ''connection refused'')) \<and>
   item_task (test_world failing_fetch refused no_response) ''http://feed'' failing_fetch 0
     = ([''http://article''], Inl NilPointerDereference) \<and>
   Parse (test_world failing_fetch refused no_response) [1, 1, 1, 1, 1, 1, 0] ''http://feed''
     = Return (Inr [test_record 1 ''g1'' ''second'']) \<and>
   Parse (test_world failing_fetch refused no_response) ([1, 1, 1, 1, 1, 1, 0] @ [0]) ''http://feed''
     = Crash NilPointerDereference"
proof -
  let ?w = "test_world failing_fetch refused no_response"
  have f: "ParseURL ?w ''http://feed'' = Inr failing_fetch"
    by (simp add: test_world_def)
  have i: "0 < length (feed_Items failing_fetch)"
    and l: "item_Link (feed_Items failing_fetch ! 0) = ''http://article''"
    by (simp_all add: failing_fetch_def test_feed_def test_item_def)
  have x: "ExtractFromURL ?w 0 ''http://article'' = (None, Some (External ''connection refused''))"
    by (simp add: test_world_def refused_def)
  have run: "Parse ?w [1, 1, 1, 1, 1, 1, 0] ''http://feed''
      = Return (Inr [test_record 1 ''g1'' ''second''])"
    by (simp add: run_defs)
  note inst = nil_article_panics [where w = ?w and url = "''http://feed''"
      and feed = failing_fetch and i = 0 and sched = "[1, 1, 1, 1, 1, 1, 0]"
      and rs = "[test_record 1 ''g1'' ''second'']"]
  from inst f i l x
  have t: "item_task ?w ''http://feed'' failing_fetch 0
      = ([''http://article''], Inl NilPointerDereference)"
    by simp
  from inst f i l x run
  have "Parse ?w ([1, 1, 1, 1, 1, 1, 0] @ [0]) ''http://feed'' = Crash NilPointerDereference"
    by simp
  with x t run show ?thesis by blast
qed

text \<open>
  C1. The specification asks for exactly one record per item. On a feed of two items,
  when both goroutines load \<open>feedItems\<close> before either stores it, \<open>Parse\<close> returns one
  record: the record of the first item is lost. When the second goroutine grows the
  slice between the first one's store of the length and its store of the element,
  \<open>Parse\<close> returns two records, of which the first is the zero value.
\<close>

theorem lost_update:
  "length (feed_Items two_items) = 2 \<and>
   Parse (test_world two_items refused no_response)
       [0, 1, 0, 1, 0, 1, 0, 1, 0, 1, 0, 1] ''http://feed''
     = Return (Inr [test_record 1 ''g1'' ''second'']) \<and>
   Parse (test_world two_items refused no_response)
       [0, 0, 0, 0, 0, 1, 1, 1, 1, 1, 1, 0] ''http://feed''
     = Return (Inr [zero_RrssFeed, test_record 1 ''g1'' ''second''])"
  by (simp add: run_defs)

text \<open>
  C2. The specification asks for an aggregation free of data races that always yields
  one record per item. After both goroutines of a feed of two items have loaded
  \<open>feedItems\<close> and grown it, they race to store it, and when the second stores first
  its record is lost.
\<close>

theorem racy_append:
  "data_race (run_sched (test_world two_items refused no_response) ''http://feed'' two_items
      [0, 1, 0, 1, 0, 1] (init_state (length (feed_Items two_items)))) \<and>
   Parse (test_world two_items refused no_response)
       [0, 1, 0, 1, 0, 1, 1, 0, 1, 0, 1, 0] ''http://feed''
     = Return (Inr [test_record 0 ''g0'' ''first''])"
proof -
  let ?w = "test_world two_items refused no_response"
  let ?st = "run_sched ?w ''http://feed'' two_items [0, 1, 0, 1, 0, 1]
      (init_state (length (feed_Items two_items)))"
  have st: "tasks ?st
      = [Grown (test_record 0 ''g0'' ''first'') 1 0 1,
         Grown (test_record 1 ''g1'' ''second'') 2 0 1]"
    by (simp add: run_defs)
  have "data_race ?st"
    unfolding data_race_def st by simp
  moreover have "Parse ?w [0, 1, 0, 1, 0, 1, 1, 0, 1, 0, 1, 0] ''http://feed''
     = Return (Inr [test_record 0 ''g0'' ''first''])"
    by (simp add: run_defs)
  ultimately show ?thesis by simp
qed

end
